theory Spec2Isabelle
  imports Complex_Main
begin

section \<open>Conventions of the embedding\<close>

text \<open>
  The development embeds the execution and analysis logic of the Petri net editor: the
  editor component (nodes, edges, enablement, execution history, firing) and the analysis
  panel (local enablement and deadlock analysis, per-place boundedness verdicts).

  \<^item> React state is a record; an event handler is a function from the state before the
    event to the state after it. Handlers run one at a time.
  \<^item> A plain JavaScript object used as a dictionary is the map \<open>string \<rightharpoonup> 'v\<close> of its own
    properties. Reading a key it does not have gives \<open>undefined\<close>, unless the key names a
    member inherited from \<open>Object.prototype\<close> (\<open>getProp\<close> below).
  \<^item> An exception is a value: a function that can throw returns \<open>js_error + 'a\<close>.
  \<^item> An optional field (\<open>undefined\<close> or \<open>null\<close>) is an \<open>option\<close>; the operators
    \<open>??\<close> and \<open>||\<close> on it become a case distinction with the source's default.
  \<^item> Token counts and arc weights are integers. The threshold \<open>k\<close> typed into the panel
    is a JavaScript number and keeps its non-finite values.
  \<^item> The clock (\<open>Date.now()\<close>) and the answer of the server to a request are parameters.
\<close>

section \<open>Analysis panel: per-place verdicts\<close>

text \<open>A JavaScript number: a finite value, or one of the three non-finite ones.\<close>

datatype jsnum = Finite rat | NaN | PosInf | NegInf

fun Number_isFinite :: "jsnum \<Rightarrow> bool" where
  "Number_isFinite (Finite q) = True"
| "Number_isFinite NaN = False"
| "Number_isFinite PosInf = False"
| "Number_isFinite NegInf = False"

text \<open>\<open>maxSeen <= k\<close> and \<open>maxSeen > k\<close> for an integer \<open>maxSeen\<close>; every comparison with
  \<open>NaN\<close> is false.\<close>

fun js_le :: "int \<Rightarrow> jsnum \<Rightarrow> bool" where
  "js_le m (Finite q) = (of_int m \<le> q)"
| "js_le m NaN = False"
| "js_le m PosInf = True"
| "js_le m NegInf = False"

fun js_gt :: "int \<Rightarrow> jsnum \<Rightarrow> bool" where
  "js_gt m (Finite q) = (of_int m > q)"
| "js_gt m NaN = False"
| "js_gt m PosInf = False"
| "js_gt m NegInf = True"

text \<open>The badge shown for a place; \<open>Dash\<close> is the badge \<open>'\<emdash>'\<close> shown when no verdict is
  derived.\<close>

datatype verdict = Dash | Yes | No | Unknown

text \<open>The two hint templates: \<open>max seen = n\<close> and \<open>min bound \<ge> n\<close>.\<close>

datatype hint = MaxSeen int | MinBound int

record place_verdict =
  pid :: string
  verdict :: verdict
  hint :: hint

text \<open>The answer of the k-boundedness request, as far as the per-place table reads it:
  \<open>place_max\<close> in the order of \<open>Object.entries\<close>.\<close>

record kresult =
  hit_limits :: bool
  place_max :: "(string \<times> int) list"

text \<open>The body of the \<open>entries.map\<close> callback in \<open>placeVerdicts\<close>.\<close>

fun placeVerdict :: "jsnum \<Rightarrow> bool \<Rightarrow> string \<times> int \<Rightarrow> place_verdict" where
  "placeVerdict k hit (p, maxSeen) =
     (if \<not> Number_isFinite k then
        \<lparr>pid = p, verdict = Dash, hint = MaxSeen maxSeen\<rparr>
      else if \<not> hit then
        \<lparr>pid = p, verdict = (if js_le maxSeen k then Yes else No), hint = MaxSeen maxSeen\<rparr>
      else
        \<lparr>pid = p, verdict = (if js_gt maxSeen k then No else Unknown), hint = MinBound maxSeen\<rparr>)"

text \<open>\<open>placeVerdicts\<close>: empty while there is no result; \<open>k\<close> is \<open>Number(kInput)\<close>.\<close>

definition placeVerdicts :: "kresult option \<Rightarrow> jsnum \<Rightarrow> place_verdict list" where
  "placeVerdicts kResult k =
     (case kResult of
        None \<Rightarrow> []
      | Some r \<Rightarrow> map (placeVerdict k (hit_limits r)) (place_max r))"

section \<open>Editor: nodes, edges and local enablement\<close>

datatype node_type = PlaceT | TransitionT

text \<open>The \<open>data\<close> object of a node: a label, and for places a token count. Either may be
  missing.\<close>

record node_data =
  d_label :: "string option"
  d_tokens :: "int option"

text \<open>A canvas node. The position plays no part in execution and is left out.\<close>

record node =
  nid :: string
  ntype :: node_type
  ndata :: "node_data option"

record edge_data =
  d_weight :: "int option"

text \<open>A canvas edge (an arc of the net).\<close>

record edge =
  eid :: string
  source :: string
  target :: string
  edata :: "edge_data option"

definition isP :: "node \<Rightarrow> bool" where
  "isP n = (ntype n = PlaceT)"

definition isT :: "node \<Rightarrow> bool" where
  "isT n = (ntype n = TransitionT)"

text \<open>\<open>Object.fromEntries\<close>: a later entry with the same key replaces an earlier one, so
  the lookup finds the last entry for a key.\<close>

definition fromEntries :: "(string \<times> 'v) list \<Rightarrow> (string \<rightharpoonup> 'v)" where
  "fromEntries kvs = map_of (rev kvs)"

text \<open>\<open>p.data?.tokens ?? 0\<close>\<close>

definition tokensOf :: "node \<Rightarrow> int" where
  "tokensOf p =
     (case ndata p of
        None \<Rightarrow> 0
      | Some d \<Rightarrow> (case d_tokens d of None \<Rightarrow> 0 | Some t \<Rightarrow> t))"

text \<open>\<open>a.data?.weight ?? 1\<close>\<close>

definition weightOf :: "edge \<Rightarrow> int" where
  "weightOf a =
     (case edata a of
        None \<Rightarrow> 1
      | Some d \<Rightarrow> (case d_weight d of None \<Rightarrow> 1 | Some w \<Rightarrow> w))"

text \<open>The count a marking gives to a place: a place absent from it holds no token.\<close>

definition tokensAt :: "(string \<rightharpoonup> int) \<Rightarrow> string \<Rightarrow> int" where
  "tokensAt m p = (case m p of None \<Rightarrow> 0 | Some v \<Rightarrow> v)"

text \<open>\<open>collectTokensFromNodes\<close> (and \<open>getMarking\<close>, which has the same body): the current
  marking, read off the place nodes.\<close>

definition collectTokensFromNodes :: "node list \<Rightarrow> (string \<rightharpoonup> int)" where
  "collectTokensFromNodes ns = fromEntries (map (\<lambda>p. (nid p, tokensOf p)) (filter isP ns))"

text \<open>A plain object (\<open>{}\<close>, the result of \<open>Object.fromEntries\<close>, a decoded JSON object) is
  the map of its own properties. It also inherits the members of \<open>Object.prototype\<close>, listed
  here: reading one of these names on an object that has no own property of that name gives
  the inherited member, a function or an object, not \<open>undefined\<close>.\<close>

definition inheritedNames :: "string list" where
  "inheritedNames =
     [''constructor'', ''hasOwnProperty'', ''isPrototypeOf'', ''propertyIsEnumerable'',
      ''toLocaleString'', ''toString'', ''valueOf'', ''__proto__'',
      ''__defineGetter__'', ''__defineSetter__'', ''__lookupGetter__'', ''__lookupSetter__'']"

definition inherited :: "string \<Rightarrow> bool" where
  "inherited k = (k \<in> set inheritedNames)"

text \<open>The outcome of reading \<open>obj[k]\<close> on a plain object.\<close>

datatype 'v lookup = Own 'v | Inherited | Undefined

definition getProp :: "(string \<rightharpoonup> 'v) \<Rightarrow> string \<Rightarrow> 'v lookup" where
  "getProp obj k =
     (case obj k of
        Some v \<Rightarrow> Own v
      | None \<Rightarrow> (if inherited k then Inherited else Undefined))"

text \<open>The one exception the enablement code can raise: calling a method that the value at
  hand does not have.\<close>

datatype js_error = TypeError

text \<open>\<open>(tokens[p] ?? 0) >= w\<close>. A missing entry reads as zero. An inherited member is not
  nullish, so \<open>??\<close> keeps it; compared with a number it converts to \<open>NaN\<close> and the
  comparison is false.\<close>

definition hasTokens :: "(string \<rightharpoonup> int) \<Rightarrow> string \<Rightarrow> int \<Rightarrow> bool" where
  "hasTokens tokens p w =
     (case getProp tokens p of
        Own v \<Rightarrow> v \<ge> w
      | Inherited \<Rightarrow> False
      | Undefined \<Rightarrow> 0 \<ge> w)"

text \<open>One round of the loop that fills the index of input arcs,
  \<open>if (keep a) (inArcs[key a] ||= []).push(a)\<close>. An existing bucket is an array, hence
  truthy, and is extended; a missing bucket is created. An inherited member is truthy too,
  so \<open>||=\<close> keeps it, and it has no \<open>push\<close>: the call throws.\<close>

definition pushArc ::
  "('a \<Rightarrow> bool) \<Rightarrow> ('a \<Rightarrow> string) \<Rightarrow> (string \<rightharpoonup> 'a list) \<Rightarrow> 'a \<Rightarrow> js_error + (string \<rightharpoonup> 'a list)" where
  "pushArc keep key inArcs a =
     (if keep a then
        (case getProp inArcs (key a) of
           Own bucket \<Rightarrow> Inr (inArcs(key a \<mapsto> bucket @ [a]))
         | Undefined \<Rightarrow> Inr (inArcs(key a \<mapsto> [a]))
         | Inherited \<Rightarrow> Inl TypeError)
      else Inr inArcs)"

text \<open>The loop \<open>xs.forEach(a => ...)\<close> from a given index; an exception ends it.\<close>

fun indexArcsFrom ::
  "('a \<Rightarrow> bool) \<Rightarrow> ('a \<Rightarrow> string) \<Rightarrow> (string \<rightharpoonup> 'a list) \<Rightarrow> 'a list \<Rightarrow> js_error + (string \<rightharpoonup> 'a list)" where
  "indexArcsFrom keep key inArcs [] = Inr inArcs"
| "indexArcsFrom keep key inArcs (a # as) =
     (case pushArc keep key inArcs a of
        Inl e \<Rightarrow> Inl e
      | Inr inArcs' \<Rightarrow> indexArcsFrom keep key inArcs' as)"

text \<open>The index built from the empty object \<open>{}\<close>.\<close>

definition indexArcs ::
  "('a \<Rightarrow> bool) \<Rightarrow> ('a \<Rightarrow> string) \<Rightarrow> 'a list \<Rightarrow> js_error + (string \<rightharpoonup> 'a list)" where
  "indexArcs keep key xs = indexArcsFrom keep key Map.empty xs"

text \<open>\<open>(inArcs[t] || []).every(ok)\<close>: a bucket is tested, a missing bucket is replaced by
  the empty array, and an inherited member, which is truthy and has no \<open>every\<close>, makes the
  call throw.\<close>

definition bucketEvery :: "('a \<Rightarrow> bool) \<Rightarrow> (string \<rightharpoonup> 'a list) \<Rightarrow> string \<Rightarrow> js_error + bool" where
  "bucketEvery ok inArcs t =
     (case getProp inArcs t of
        Own bucket \<Rightarrow> Inr (list_all ok bucket)
      | Undefined \<Rightarrow> Inr True
      | Inherited \<Rightarrow> Inl TypeError)"

text \<open>\<open>xs.filter(p)\<close> for a callback that may throw: the first exception ends the
  traversal.\<close>

fun filterE :: "('a \<Rightarrow> js_error + bool) \<Rightarrow> 'a list \<Rightarrow> js_error + 'a list" where
  "filterE p [] = Inr []"
| "filterE p (x # xs) =
     (case p x of
        Inl e \<Rightarrow> Inl e
      | Inr b \<Rightarrow>
          (case filterE p xs of
             Inl e \<Rightarrow> Inl e
           | Inr ys \<Rightarrow> Inr (if b then x # ys else ys)))"

text \<open>\<open>computeEnabled(ns, es)\<close>: the transitions enabled under the marking held by the
  place nodes, or the exception raised on the way.\<close>

definition computeEnabled :: "node list \<Rightarrow> edge list \<Rightarrow> js_error + string list" where
  "computeEnabled ns es =
     (let placeTokens =
            fromEntries (map (\<lambda>p. (nid p, tokensOf p)) (filter (\<lambda>n. ntype n = PlaceT) ns));
          nodeById = fromEntries (map (\<lambda>n. (nid n, ntype n)) ns)
      in case indexArcs (\<lambda>e. getProp nodeById (target e) = Own TransitionT) target es of
           Inl e \<Rightarrow> Inl e
         | Inr inArcs \<Rightarrow>
             (case filterE
                     (\<lambda>tr. bucketEvery (\<lambda>a. hasTokens placeTokens (source a) (weightOf a))
                              inArcs (nid tr))
                     (filter (\<lambda>n. ntype n = TransitionT) ns) of
                Inl e \<Rightarrow> Inl e
              | Inr trs \<Rightarrow> Inr (map nid trs)))"

text \<open>\<open>enabledAtTokens(tokens)\<close>: the same question for a stored marking; \<open>ns\<close> and
  \<open>es\<close> are the \<open>nodes\<close> and \<open>edges\<close> of the current render.\<close>

definition enabledAtTokens ::
  "node list \<Rightarrow> edge list \<Rightarrow> (string \<rightharpoonup> int) \<Rightarrow> js_error + string list" where
  "enabledAtTokens ns es tokens =
     (let nodeById = fromEntries (map (\<lambda>n. (nid n, ntype n)) ns)
      in case indexArcs (\<lambda>e. getProp nodeById (target e) = Own TransitionT) target es of
           Inl e \<Rightarrow> Inl e
         | Inr inArcs \<Rightarrow>
             (case filterE
                     (\<lambda>tr. bucketEvery (\<lambda>a. hasTokens tokens (source a) (weightOf a))
                              inArcs (nid tr))
                     (filter (\<lambda>n. ntype n = TransitionT) ns) of
                Inl e \<Rightarrow> Inl e
              | Inr trs \<Rightarrow> Inr (map nid trs)))"

section \<open>Analysis panel: local state analysis\<close>

text \<open>The net handed to the panel by \<open>toNet\<close>; labels and positions are left out.\<close>

record net_place =
  place_id :: string
  place_tokens :: int

record net_transition =
  transition_id :: string

record arc =
  arc_id :: string
  src :: string
  dst :: string
  arc_weight :: "int option"

record net =
  places :: "net_place list"
  transitions :: "net_transition list"
  arcs :: "arc list"

text \<open>What the panel shows: the enabled transitions, the deadlock flag and the marking.\<close>

record panel =
  p_enabled :: "string list"
  p_deadlocked :: bool
  p_serverMarking :: "string \<rightharpoonup> int"

text \<open>\<open>a.weight ?? 1\<close>\<close>

definition arcWeight :: "arc \<Rightarrow> int" where
  "arcWeight a = (case arc_weight a of None \<Rightarrow> 1 | Some w \<Rightarrow> w)"

text \<open>The index of input arcs built by \<open>localAnalyze\<close>: an arc is kept only if its target
  is a transition of the net and its source is a place of the net (\<open>places\<close> and \<open>trans\<close>
  are \<open>Set\<close>s, which inherit nothing).\<close>

definition localInArcs :: "net \<Rightarrow> js_error + (string \<rightharpoonup> arc list)" where
  "localInArcs n =
     (let placeIds = set (map place_id (places n));
          trans = set (map transition_id (transitions n))
      in indexArcs (\<lambda>a. dst a \<in> trans \<and> src a \<in> placeIds) dst (arcs n))"

text \<open>The list \<open>en\<close> computed by \<open>localAnalyze\<close>; \<open>marking\<close> may be missing
  (\<open>marking || {}\<close>).\<close>

definition localEnabled :: "net \<Rightarrow> (string \<rightharpoonup> int) option \<Rightarrow> js_error + string list" where
  "localEnabled n marking =
     (let m = (case marking of None \<Rightarrow> Map.empty | Some mk \<Rightarrow> mk)
      in case localInArcs n of
           Inl e \<Rightarrow> Inl e
         | Inr inArcs \<Rightarrow>
             (case filterE
                     (\<lambda>t. bucketEvery (\<lambda>a. hasTokens m (src a) (arcWeight a))
                             inArcs (transition_id t))
                     (transitions n) of
                Inl e \<Rightarrow> Inl e
              | Inr ts \<Rightarrow> Inr (map transition_id ts)))"

text \<open>\<open>localAnalyze\<close>, the fallback used when the server cannot be reached or refuses. When
  the computation of \<open>en\<close> throws, none of the three setters is reached.\<close>

definition localAnalyze :: "net \<Rightarrow> (string \<rightharpoonup> int) option \<Rightarrow> panel \<Rightarrow> js_error + panel" where
  "localAnalyze n marking pn =
     (let m = (case marking of None \<Rightarrow> Map.empty | Some mk \<Rightarrow> mk)
      in case localEnabled n marking of
           Inl e \<Rightarrow> Inl e
         | Inr en \<Rightarrow>
             Inr (pn\<lparr>p_enabled := en, p_deadlocked := (length en = 0), p_serverMarking := m\<rparr>))"

text \<open>The initial panel state, from the enabled set computed by the editor.\<close>

definition initialPanel :: "string list \<Rightarrow> (string \<rightharpoonup> int) option \<Rightarrow> panel" where
  "initialPanel enabledLocal marking =
     \<lparr>p_enabled = enabledLocal,
      p_deadlocked = (length enabledLocal = 0),
      p_serverMarking = (case marking of None \<Rightarrow> Map.empty | Some mk \<Rightarrow> mk)\<rparr>"




section \<open>Editor: state, editing and execution history\<close>

text \<open>A recorded step: the transition fired to reach it (none for the initial entry), the
  marking reached and a timestamp.\<close>

record step =
  fired :: "string option"
  step_tokens :: "string \<rightharpoonup> int"
  ts :: int

text \<open>The state of the editor component. \<open>hIndex\<close> is \<open>-1\<close> while there is no history.
  \<open>hIndexRef\<close> is the ref that mirrors \<open>hIndex\<close>; it is brought up to date after each
  render (\<open>commit\<close> below). \<open>placeCounter\<close> and \<open>transCounter\<close> are the two
  module-level counters. \<open>uncaught\<close> holds an exception that escaped a state updater.\<close>

record app =
  nodes :: "node list"
  edges :: "edge list"
  selectedId :: "string option"
  selectedIds :: "string list"
  enabled :: "string list"
  isFiring :: bool
  autoRun :: bool
  error :: string
  history :: "step list"
  hIndex :: int
  hIndexRef :: int
  placeCounter :: nat
  transCounter :: nat
  uncaught :: "js_error option"

text \<open>\<open>useEffect(() => { hIndexRef.current = hIndex }, [hIndex])\<close>\<close>

definition commit :: "app \<Rightarrow> app" where
  "commit st = st\<lparr>hIndexRef := hIndex st\<rparr>"

definition clearHistory :: "app \<Rightarrow> app" where
  "clearHistory st = st\<lparr>history := [], hIndex := - 1\<rparr>"

text \<open>Decimal digits of a counter, for the generated identifiers \<open>P1\<close>, \<open>T1\<close>, ...\<close>

fun decimal :: "nat \<Rightarrow> string" where
  "decimal n =
     (if n < 10 then [char_of (48 + n)]
      else decimal (n div 10) @ [char_of (48 + n mod 10)])"

definition addPlace :: "app \<Rightarrow> app" where
  "addPlace st =
     (let i = ''P'' @ decimal (placeCounter st)
      in clearHistory
           (st\<lparr>placeCounter := placeCounter st + 1,
               nodes := nodes st @
                 [\<lparr>nid = i, ntype = PlaceT,
                   ndata = Some \<lparr>d_label = Some [], d_tokens = Some 0\<rparr>\<rparr>]\<rparr>))"

definition addTransition :: "app \<Rightarrow> app" where
  "addTransition st =
     (let i = ''T'' @ decimal (transCounter st)
      in clearHistory
           (st\<lparr>transCounter := transCounter st + 1,
               nodes := nodes st @
                 [\<lparr>nid = i, ntype = TransitionT,
                   ndata = Some \<lparr>d_label = Some [], d_tokens = None\<rparr>\<rparr>]\<rparr>))"

text \<open>\<open>onConnect\<close>: only place-transition and transition-place connections are taken.
  \<open>addEdge\<close> is the function of the canvas library and is a parameter here; it also
  chooses the identifier of the new edge, which has weight 1.\<close>

definition onConnect ::
  "(edge \<Rightarrow> edge list \<Rightarrow> edge list) \<Rightarrow> string \<Rightarrow> string \<Rightarrow> app \<Rightarrow> app" where
  "onConnect addEdge psource ptarget st =
     (let s = find (\<lambda>n. nid n = psource) (nodes st);
          t = find (\<lambda>n. nid n = ptarget) (nodes st);
          isPo = (\<lambda>x. case x of None \<Rightarrow> False | Some n \<Rightarrow> isP n);
          isTo = (\<lambda>x. case x of None \<Rightarrow> False | Some n \<Rightarrow> isT n);
          ok = ((isPo s \<and> isTo t) \<or> (isTo s \<and> isPo t))
      in if \<not> ok then st
         else clearHistory
                (st\<lparr>edges := addEdge
                       \<lparr>eid = [], source = psource, target = ptarget,
                        edata = Some \<lparr>d_weight = Some 1\<rparr>\<rparr> (edges st)\<rparr>))"

definition deleteById :: "string \<Rightarrow> app \<Rightarrow> app" where
  "deleteById i st =
     clearHistory
       (st\<lparr>nodes := filter (\<lambda>n. nid n \<noteq> i) (nodes st),
           edges := filter (\<lambda>e. eid e \<noteq> i \<and> source e \<noteq> i \<and> target e \<noteq> i) (edges st),
           selectedId := None,
           selectedIds := []\<rparr>)"

text \<open>The keyboard handler: outside a form field, Delete or Backspace removes the selected
  nodes and edges, and the edges attached to removed nodes.\<close>

definition onKeyDown :: "bool \<Rightarrow> string \<Rightarrow> app \<Rightarrow> app" where
  "onKeyDown inForm key st =
     (if inForm then st
      else if key = ''Delete'' \<or> key = ''Backspace'' then
        (if length (selectedIds st) \<noteq> 0 then
           (let sel = set (selectedIds st)
            in clearHistory
                 (st\<lparr>nodes := filter (\<lambda>n. nid n \<notin> sel) (nodes st),
                     edges := filter (\<lambda>e. eid e \<notin> sel \<and> source e \<notin> sel \<and> target e \<notin> sel)
                                (edges st),
                     selectedId := None,
                     selectedIds := []\<rparr>))
         else st)
      else st)"

text \<open>The patches the inspector builds: a new \<open>data\<close> object for the selected node (label
  or token count edited) or for the selected edge (weight edited).\<close>

datatype patch = NodeData node_data | EdgeData edge_data

text \<open>\<open>{ ...e, ...patch }\<close> and \<open>{ ...n, ...patch }\<close>: the patch replaces \<open>data\<close>. A data
  object of the other kind carries none of the fields read here.\<close>

fun patchEdge :: "patch \<Rightarrow> edge \<Rightarrow> edge" where
  "patchEdge (EdgeData d) e = e\<lparr>edata := Some d\<rparr>"
| "patchEdge (NodeData d) e = e\<lparr>edata := Some \<lparr>d_weight = None\<rparr>\<rparr>"

fun patchNode :: "patch \<Rightarrow> node \<Rightarrow> node" where
  "patchNode (NodeData d) n = n\<lparr>ndata := Some d\<rparr>"
| "patchNode (EdgeData d) n = n\<lparr>ndata := Some \<lparr>d_label = None, d_tokens = None\<rparr>\<rparr>"

definition selectedNode :: "app \<Rightarrow> node option" where
  "selectedNode st = find (\<lambda>n. Some (nid n) = selectedId st) (nodes st)"

definition selectedEdge :: "app \<Rightarrow> edge option" where
  "selectedEdge st = find (\<lambda>e. Some (eid e) = selectedId st) (edges st)"

text \<open>\<open>updateSelected(patch)\<close>: edits the selected edge, else the selected node.\<close>

definition updateSelected :: "patch \<Rightarrow> app \<Rightarrow> app" where
  "updateSelected pt st =
     (case selectedEdge st of
        Some se \<Rightarrow> st\<lparr>edges := map (\<lambda>e. if eid e = eid se then patchEdge pt e else e) (edges st)\<rparr>
      | None \<Rightarrow>
          (case selectedNode st of
             Some sn \<Rightarrow>
               st\<lparr>nodes := map (\<lambda>n. if nid n = nid sn then patchNode pt n else n) (nodes st)\<rparr>
           | None \<Rightarrow> st))"

text \<open>\<open>ensureHistoryInit\<close>: on an empty history, records the current marking as the initial
  entry.\<close>

definition ensureHistoryInit :: "int \<Rightarrow> app \<Rightarrow> app" where
  "ensureHistoryInit now st =
     (if length (history st) > 0 then st
      else (let step0 = \<lparr>fired = None, step_tokens = collectTokensFromNodes (nodes st), ts = now\<rparr>
            in st\<lparr>history := [step0], hIndex := 0\<rparr>))"

text \<open>\<open>appendHistory(newStep)\<close>: keeps the entries up to the position held by the ref, drops
  the rest and appends; \<open>prev.slice(0, idx + 1)\<close> is \<open>take\<close>.\<close>

definition appendHistory :: "step \<Rightarrow> app \<Rightarrow> app" where
  "appendHistory newStep st =
     (let idx = hIndexRef st;
          head = (if idx \<ge> 0 then take (nat (idx + 1)) (history st) else [])
      in st\<lparr>history := head @ [newStep], hIndex := hIndex st + 1\<rparr>)"

text \<open>\<open>{ ...n, data: { ...n.data, tokens: v } }\<close>\<close>

definition withTokens :: "int \<Rightarrow> node \<Rightarrow> node" where
  "withTokens v n =
     n\<lparr>ndata := Some ((case ndata n of
                          None \<Rightarrow> \<lparr>d_label = None, d_tokens = None\<rparr>
                        | Some d \<Rightarrow> d)\<lparr>d_tokens := Some v\<rparr>)\<rparr>"

text \<open>The node update shared by \<open>applyStep\<close> and \<open>fire\<close>: every place takes its count from
  the given marking, zero if absent (the markings the editor records have an entry for
  every place).\<close>

definition applyTokens :: "(string \<rightharpoonup> int) \<Rightarrow> node list \<Rightarrow> node list" where
  "applyTokens tokens ns =
     map (\<lambda>n. if isP n then withTokens (tokensAt tokens (nid n)) n else n) ns"

definition applyStep :: "step \<Rightarrow> app \<Rightarrow> app" where
  "applyStep stp st =
     (let updated = applyTokens (step_tokens stp) (nodes st)
      in case computeEnabled updated (edges st) of
           Inr en \<Rightarrow> st\<lparr>nodes := updated, enabled := en\<rparr>
         | Inl e \<Rightarrow> st\<lparr>uncaught := Some e\<rparr>)"

text \<open>\<open>goTo(idx)\<close>: an index outside the history is ignored.\<close>

definition goTo :: "int \<Rightarrow> app \<Rightarrow> app" where
  "goTo idx st =
     (if idx < 0 \<or> idx \<ge> int (length (history st)) then st
      else applyStep (history st ! nat idx) (st\<lparr>autoRun := False, hIndex := idx\<rparr>))"

definition stepPrev :: "app \<Rightarrow> app" where
  "stepPrev st = goTo (hIndex st - 1) st"

definition stepNext :: "app \<Rightarrow> app" where
  "stepNext st = goTo (hIndex st + 1) st"

definition stepFirst :: "app \<Rightarrow> app" where
  "stepFirst st = goTo 0 st"

definition stepLast :: "app \<Rightarrow> app" where
  "stepLast st = goTo (int (length (history st)) - 1) st"

text \<open>The outcome of the request sent by \<open>fire\<close>: the request or the decoding of its answer
  throws (with a message), the server rejects the firing (\<open>!res.ok\<close>, with an optional
  \<open>detail\<close>), or it answers with the places of the successor net and their token counts.\<close>

datatype fire_response =
    Thrown string
  | Rejected "string option"
  | Fired "(string \<times> int option) list"

text \<open>\<open>data.detail || 'Request failed'\<close>: a missing or empty detail is replaced.\<close>

definition detailOrDefault :: "string option \<Rightarrow> string" where
  "detailOrDefault d =
     (case d of None \<Rightarrow> ''Request failed'' | Some x \<Rightarrow> (if x = [] then ''Request failed'' else x))"

text \<open>\<open>fire(tid)\<close>. \<open>now0\<close> is the clock when the history is initialised, \<open>now1\<close> the clock
  when the step is recorded. The component renders while the request is pending, so the
  ref is up to date when the answer arrives.\<close>

definition fire :: "string \<Rightarrow> int \<Rightarrow> int \<Rightarrow> fire_response \<Rightarrow> app \<Rightarrow> app" where
  "fire tid now0 now1 resp st =
     (if isFiring st then st
      else
        (let st1 = commit (ensureHistoryInit now0 (st\<lparr>isFiring := True, error := []\<rparr>))
         in case resp of
              Thrown msg \<Rightarrow> st1\<lparr>error := msg, isFiring := False\<rparr>
            | Rejected d \<Rightarrow> st1\<lparr>error := detailOrDefault d, isFiring := False\<rparr>
            | Fired ps \<Rightarrow>
                (let tokens = fromEntries
                       (map (\<lambda>(i, t). (i, case t of None \<Rightarrow> 0 | Some v \<Rightarrow> v)) ps);
                     updated = applyTokens tokens (nodes st1)
                 in case computeEnabled updated (edges st1) of
                      Inl e \<Rightarrow> st1\<lparr>isFiring := False, uncaught := Some e\<rparr>
                    | Inr en \<Rightarrow>
                        (appendHistory \<lparr>fired = Some tid, step_tokens = tokens, ts = now1\<rparr>
                           (st1\<lparr>enabled := en\<rparr>))\<lparr>nodes := updated, isFiring := False\<rparr>)))"

section \<open>The index of input arcs as a function of the arcs\<close>

text \<open>The buckets that the indexing loop leaves when it runs to its end from the index \<open>m\<close>
  over the arcs \<open>xs\<close>: the kept arcs with key \<open>t\<close>, in their order, appended to the bucket
  of \<open>t\<close>, and no bucket where there is nothing to put. This is a notion of the proofs, not a
  function of the code.\<close>

definition bucketsAfter ::
  "('a \<Rightarrow> bool) \<Rightarrow> ('a \<Rightarrow> string) \<Rightarrow> (string \<rightharpoonup> 'a list) \<Rightarrow> 'a list \<Rightarrow> (string \<rightharpoonup> 'a list)" where
  "bucketsAfter keep key m xs =
     (\<lambda>t. case m t of
             None \<Rightarrow> (if filter (\<lambda>a. keep a \<and> key a = t) xs = [] then None
                       else Some (filter (\<lambda>a. keep a \<and> key a = t) xs))
           | Some bucket \<Rightarrow> Some (bucket @ filter (\<lambda>a. keep a \<and> key a = t) xs))"

section \<open>Example inputs\<close>

text \<open>The example net of the editor: \<open>P1\<close> with one token, \<open>P2\<close> empty, and \<open>T1\<close> moving a
  token from \<open>P1\<close> to \<open>P2\<close>.\<close>

definition exP1 :: node where
  "exP1 = \<lparr>nid = ''P1'', ntype = PlaceT, ndata = Some \<lparr>d_label = Some ''P1'', d_tokens = Some 1\<rparr>\<rparr>"

definition exP2 :: node where
  "exP2 = \<lparr>nid = ''P2'', ntype = PlaceT, ndata = Some \<lparr>d_label = Some ''P2'', d_tokens = Some 0\<rparr>\<rparr>"

definition exT1 :: node where
  "exT1 = \<lparr>nid = ''T1'', ntype = TransitionT, ndata = Some \<lparr>d_label = Some ''T1'', d_tokens = None\<rparr>\<rparr>"

definition exA1 :: edge where
  "exA1 = \<lparr>eid = ''A1'', source = ''P1'', target = ''T1'', edata = Some \<lparr>d_weight = Some 1\<rparr>\<rparr>"

definition exA2 :: edge where
  "exA2 = \<lparr>eid = ''A2'', source = ''T1'', target = ''P2'', edata = Some \<lparr>d_weight = Some 1\<rparr>\<rparr>"

definition exNodes :: "node list" where
  "exNodes = [exP1, exP2, exT1]"

definition exEdges :: "edge list" where
  "exEdges = [exA1, exA2]"

text \<open>The editor right after loading the example: nothing selected, no history.\<close>

definition exApp :: app where
  "exApp = \<lparr>nodes = exNodes, edges = exEdges, selectedId = None, selectedIds = [],
            enabled = [''T1''], isFiring = False, autoRun = False, error = [],
            history = [], hIndex = - 1, hIndexRef = - 1, placeCounter = 3, transCounter = 2,
            uncaught = None\<rparr>"

text \<open>A recorded run of the example: the initial entry and the firing of \<open>T1\<close>, the cursor
  on the last entry.\<close>

definition exStep0 :: step where
  "exStep0 = \<lparr>fired = None, step_tokens = [''P1'' \<mapsto> 1, ''P2'' \<mapsto> 0], ts = 100\<rparr>"

definition exStep1 :: step where
  "exStep1 = \<lparr>fired = Some ''T1'', step_tokens = [''P1'' \<mapsto> 0, ''P2'' \<mapsto> 1], ts = 200\<rparr>"

definition exStep2 :: step where
  "exStep2 = \<lparr>fired = Some ''T9'', step_tokens = [''P1'' \<mapsto> 5, ''P2'' \<mapsto> 5], ts = 300\<rparr>"

definition exRun :: app where
  "exRun = exApp\<lparr>nodes := applyTokens (step_tokens exStep1) exNodes, enabled := [],
                 history := [exStep0, exStep1], hIndex := 1, hIndexRef := 1\<rparr>"

text \<open>An answer of the bounded search that was cut short, and one that was not.\<close>

definition exCut :: kresult where
  "exCut = \<lparr>hit_limits = True, place_max = [(''P1'', 3), (''P2'', 1)]\<rparr>"

definition exFull :: kresult where
  "exFull = \<lparr>hit_limits = False, place_max = [(''P1'', 3), (''P2'', 1)]\<rparr>"

text \<open>The editor with the run recorded and the arc \<open>A1\<close> selected in the inspector.\<close>

definition exSel :: app where
  "exSel = exRun\<lparr>selectedId := Some ''A1'', selectedIds := [''A1'']\<rparr>"

text \<open>The same with the place \<open>P1\<close> selected.\<close>

definition exSelP :: app where
  "exSelP = exRun\<lparr>selectedId := Some ''P1'', selectedIds := [''P1'']\<rparr>"

text \<open>The example as the panel receives it, extended by a transition \<open>T2\<close> whose only arc
  comes from an identifier \<open>X9\<close> that is no place of the net.\<close>

definition exNet :: net where
  "exNet = \<lparr>places = [\<lparr>place_id = ''P1'', place_tokens = 1\<rparr>, \<lparr>place_id = ''P2'', place_tokens = 0\<rparr>],
            transitions = [\<lparr>transition_id = ''T1''\<rparr>, \<lparr>transition_id = ''T2''\<rparr>],
            arcs = [\<lparr>arc_id = ''A1'', src = ''P1'', dst = ''T1'', arc_weight = Some 1\<rparr>,
                    \<lparr>arc_id = ''A2'', src = ''T1'', dst = ''P2'', arc_weight = Some 1\<rparr>,
                    \<lparr>arc_id = ''A3'', src = ''X9'', dst = ''T2'', arc_weight = Some 1\<rparr>]\<rparr>"

definition exDangling :: arc where
  "exDangling = \<lparr>arc_id = ''A3'', src = ''X9'', dst = ''T2'', arc_weight = Some 1\<rparr>"



definition exMarking1 :: "string \<rightharpoonup> int" where
  "exMarking1 = [''P1'' \<mapsto> 0, ''P2'' \<mapsto> 1]"

definition exPanel :: panel where
  "exPanel = initialPanel [] (Some exMarking1)"



definition exCtor :: node where
  "exCtor = \<lparr>nid = ''constructor'', ntype = TransitionT,
             ndata = Some \<lparr>d_label = Some [], d_tokens = None\<rparr>\<rparr>"


section \<open>Per-place verdicts\<close>

lemma length_placeVerdicts:
  "length (placeVerdicts (Some r) k) = length (place_max r)"
  by (simp add: placeVerdicts_def)

lemma nth_placeVerdicts:
  "i < length (place_max r) \<Longrightarrow>
     placeVerdicts (Some r) k ! i = placeVerdict k (hit_limits r) (place_max r ! i)"
  by (simp add: placeVerdicts_def)

lemma js_gt_iff_not_le: "Number_isFinite k \<Longrightarrow> js_gt m k \<longleftrightarrow> \<not> js_le m k"
  by (cases k) auto

text \<open>
  \<^bold>\<open>Claim C1.\<close> When the search hit its limits (\<open>hit_limits\<close> is true), the verdict derived
  for a place is never \<open>Yes\<close>, and it is \<open>No\<close> only if the observed maximum of the place
  exceeds \<open>k\<close>, whatever \<open>k\<close> is. For a threshold \<open>k\<close> that is a finite number, the verdict is
  \<open>No\<close> exactly when the observed maximum exceeds \<open>k\<close> and \<open>Unknown\<close> exactly when it is at
  most \<open>k\<close>. The \<open>i\<close>-th verdict belongs to the \<open>i\<close>-th entry of \<open>place_max\<close>. (When \<open>k\<close> is
  not a finite number there is no threshold to compare with, and the panel shows the dash.)
\<close>

theorem placeVerdicts_hit_limits:
  assumes "hit_limits r" and "i < length (place_max r)"
  shows "pid (placeVerdicts (Some r) k ! i) = fst (place_max r ! i) \<and>
         verdict (placeVerdicts (Some r) k ! i) \<noteq> Yes \<and>
         (verdict (placeVerdicts (Some r) k ! i) = No \<longrightarrow> js_gt (snd (place_max r ! i)) k) \<and>
         (Number_isFinite k \<longrightarrow>
            (verdict (placeVerdicts (Some r) k ! i) = No \<longleftrightarrow> js_gt (snd (place_max r ! i)) k) \<and>
            (verdict (placeVerdicts (Some r) k ! i) = Unknown \<longleftrightarrow>
               js_le (snd (place_max r ! i)) k))"
proof -
  obtain p mx where e: "place_max r ! i = (p, mx)"
    by (cases "place_max r ! i")
  have "placeVerdicts (Some r) k ! i = placeVerdict k True (p, mx)"
    using assms e by (simp add: nth_placeVerdicts)
  then show ?thesis
    using e by (simp add: js_gt_iff_not_le)
qed

theorem placeVerdicts_hit_limits_witness:
  "hit_limits exCut \<and> 1 < length (place_max exCut) \<and> Number_isFinite (Finite 2) \<and>
   js_gt 3 (Finite 2) \<and> verdict (placeVerdicts (Some exCut) (Finite 2) ! 0) = No \<and>
   js_le 1 (Finite 2) \<and> verdict (placeVerdicts (Some exCut) (Finite 2) ! 1) = Unknown"
  using placeVerdicts_hit_limits [of exCut 0 "Finite 2"]
        placeVerdicts_hit_limits [of exCut 1 "Finite 2"]
  by (simp add: exCut_def)

text \<open>
  \<^bold>\<open>Claim C7.\<close> When the search did not hit its limits and \<open>k\<close> is a finite number, the
  verdict derived for a place is \<open>Yes\<close> exactly when its observed maximum is at most \<open>k\<close>, and
  \<open>No\<close> otherwise.
\<close>

theorem placeVerdicts_exact:
  assumes "\<not> hit_limits r" and "Number_isFinite k" and "i < length (place_max r)"
  shows "pid (placeVerdicts (Some r) k ! i) = fst (place_max r ! i) \<and>
         (verdict (placeVerdicts (Some r) k ! i) = Yes \<longleftrightarrow> js_le (snd (place_max r ! i)) k) \<and>
         (verdict (placeVerdicts (Some r) k ! i) = No \<longleftrightarrow> \<not> js_le (snd (place_max r ! i)) k)"
proof -
  obtain p mx where e: "place_max r ! i = (p, mx)"
    by (cases "place_max r ! i")
  have "placeVerdicts (Some r) k ! i = placeVerdict k False (p, mx)"
    using assms e by (simp add: nth_placeVerdicts)
  then show ?thesis
    using assms(2) e by simp
qed

theorem placeVerdicts_exact_witness:
  "\<not> hit_limits exFull \<and> Number_isFinite (Finite 2) \<and> 1 < length (place_max exFull) \<and>
   \<not> js_le 3 (Finite 2) \<and> verdict (placeVerdicts (Some exFull) (Finite 2) ! 0) = No \<and>
   js_le 1 (Finite 2) \<and> verdict (placeVerdicts (Some exFull) (Finite 2) ! 1) = Yes"
  using placeVerdicts_exact [of exFull "Finite 2" 0]
        placeVerdicts_exact [of exFull "Finite 2" 1]
  by (simp add: exFull_def)

section \<open>Enablement\<close>

lemmas ex_editor_defs =
  exApp_def exRun_def exSel_def exSelP_def exNodes_def exEdges_def exP1_def exP2_def exT1_def
  exA1_def exA2_def exStep0_def exStep1_def exStep2_def

lemmas enabled_defs =
  computeEnabled_def enabledAtTokens_def fromEntries_def indexArcs_def pushArc_def
  bucketEvery_def getProp_def inherited_def inheritedNames_def hasTokens_def
  tokensOf_def weightOf_def collectTokensFromNodes_def isP_def

lemmas local_defs =
  localAnalyze_def localEnabled_def localInArcs_def indexArcs_def pushArc_def bucketEvery_def
  getProp_def inherited_def inheritedNames_def hasTokens_def arcWeight_def

subsection \<open>The indexing loop and the filter\<close>

lemma isP_eq: "isP = (\<lambda>n. ntype n = PlaceT)"
  by (rule ext) (simp add: isP_def)

lemma js_error_eq: "(e::js_error) = TypeError"
  by (cases e) simp

lemma getProp_no_inherited:
  "\<not> inherited k \<Longrightarrow> getProp obj k = (case obj k of None \<Rightarrow> Undefined | Some v \<Rightarrow> Own v)"
  by (simp add: getProp_def split: option.split)

lemma getProp_inherited:
  "inherited k \<Longrightarrow> obj k = None \<Longrightarrow> getProp obj k = Inherited"
  by (simp add: getProp_def)

lemma pushArc_throws:
  "keep a \<Longrightarrow> inherited (key a) \<Longrightarrow> m (key a) = None \<Longrightarrow> pushArc keep key m a = Inl TypeError"
  by (simp add: pushArc_def getProp_inherited)

lemma pushArc_returns:
  "\<not> (keep a \<and> inherited (key a)) \<Longrightarrow>
     pushArc keep key m a =
       Inr (if keep a then m(key a \<mapsto> (case m (key a) of None \<Rightarrow> [] | Some bucket \<Rightarrow> bucket) @ [a])
            else m)"
  by (auto simp: pushArc_def getProp_no_inherited split: option.split)

lemma bucketsAfter_Cons:
  "bucketsAfter keep key
     (if keep x then m(key x \<mapsto> (case m (key x) of None \<Rightarrow> [] | Some bucket \<Rightarrow> bucket) @ [x]) else m)
     xs = bucketsAfter keep key m (x # xs)"
  by (rule ext) (simp add: bucketsAfter_def split: option.split)

lemma indexArcsFrom_char:
  assumes "\<forall>k. inherited k \<longrightarrow> m k = None"
  shows "indexArcsFrom keep key m xs =
           (if \<exists>a \<in> set xs. keep a \<and> inherited (key a) then Inl TypeError
            else Inr (bucketsAfter keep key m xs))"
  using assms
proof (induction xs arbitrary: m)
  case Nil
  have "bucketsAfter keep key m [] = m"
    by (rule ext) (simp add: bucketsAfter_def split: option.split)
  then show ?case by simp
next
  case (Cons x xs)
  show ?case
  proof (cases "keep x \<and> inherited (key x)")
    case True
    then have "pushArc keep key m x = Inl TypeError"
      using Cons.prems by (simp add: pushArc_throws)
    with True show ?thesis by simp
  next
    case False
    let ?m' = "if keep x then m(key x \<mapsto> (case m (key x) of None \<Rightarrow> [] | Some bucket \<Rightarrow> bucket) @ [x])
               else m"
    have p: "pushArc keep key m x = Inr ?m'"
      using False by (rule pushArc_returns)
    have inv: "\<forall>k. inherited k \<longrightarrow> ?m' k = None"
      using Cons.prems False by auto
    have "indexArcsFrom keep key m (x # xs) = indexArcsFrom keep key ?m' xs"
      using p by simp
    also have "\<dots> = (if \<exists>a \<in> set xs. keep a \<and> inherited (key a) then Inl TypeError
                     else Inr (bucketsAfter keep key ?m' xs))"
      using inv by (rule Cons.IH)
    also have "\<dots> = (if \<exists>a \<in> set (x # xs). keep a \<and> inherited (key a) then Inl TypeError
                     else Inr (bucketsAfter keep key m (x # xs)))"
      using False by (simp only: bucketsAfter_Cons) auto
    finally show ?thesis .
  qed
qed

lemma indexArcs_char:
  "indexArcs keep key xs =
     (if \<exists>a \<in> set xs. keep a \<and> inherited (key a) then Inl TypeError
      else Inr (bucketsAfter keep key Map.empty xs))"
  unfolding indexArcs_def by (rule indexArcsFrom_char) simp

lemma bucketEvery_index:
  assumes "\<not> (\<exists>a \<in> set xs. keep a \<and> inherited (key a))"
  shows "bucketEvery ok (bucketsAfter keep key Map.empty xs) t =
           (if inherited t then Inl TypeError
            else Inr (\<forall>a \<in> set xs. keep a \<and> key a = t \<longrightarrow> ok a))"
proof (cases "inherited t")
  case True
  have "filter (\<lambda>a. keep a \<and> key a = t) xs = []"
    using assms True by (auto simp: filter_empty_conv)
  then have "bucketsAfter keep key Map.empty xs t = None"
    by (simp add: bucketsAfter_def)
  with True show ?thesis
    by (simp add: bucketEvery_def getProp_inherited)
next
  case False
  let ?b = "filter (\<lambda>a. keep a \<and> key a = t) xs"
  have "bucketEvery ok (bucketsAfter keep key Map.empty xs) t = Inr (list_all ok ?b)"
    using False by (simp add: bucketEvery_def getProp_no_inherited bucketsAfter_def)
  also have "list_all ok ?b \<longleftrightarrow> (\<forall>a \<in> set xs. keep a \<and> key a = t \<longrightarrow> ok a)"
    by (auto simp: list_all_iff)
  finally show ?thesis
    using False by simp
qed

lemma filterE_char:
  "filterE p xs =
     (if \<exists>x \<in> set xs. p x = Inl TypeError then Inl TypeError
      else Inr (filter (\<lambda>x. p x = Inr True) xs))"
proof (induction xs)
  case Nil
  show ?case by simp
next
  case (Cons x xs)
  show ?case
  proof (cases "p x")
    case (Inl e)
    then have "p x = Inl TypeError"
      using js_error_eq [of e] by simp
    then show ?thesis by simp
  next
    case (Inr b)
    then show ?thesis
      using Cons.IH by (cases b) auto
  qed
qed

subsection \<open>When the enablement functions throw, and what they return\<close>

lemma getProp_Own_iff: "getProp obj k = Own v \<longleftrightarrow> obj k = Some v"
  by (simp add: getProp_def split: option.split)

lemma nodeById_transition:
  assumes "fromEntries (map (\<lambda>n. (nid n, ntype n)) ns) k = Some TransitionT"
  shows "\<exists>tr \<in> set ns. nid tr = k \<and> ntype tr = TransitionT"
proof -
  have "(k, TransitionT) \<in> set (rev (map (\<lambda>n. (nid n, ntype n)) ns))"
    using assms unfolding fromEntries_def by (rule map_of_SomeD)
  then show ?thesis by auto
qed

lemma filterE_returns:
  assumes "\<forall>x \<in> set xs. p x = Inr (q x)"
  shows "filterE p xs = Inr (filter q xs)"
proof -
  have "\<not> (\<exists>x \<in> set xs. p x = Inl TypeError)"
    using assms by auto
  moreover have "filter (\<lambda>x. p x = Inr True) xs = filter q xs"
    using assms by (auto intro: filter_cong)
  ultimately show ?thesis
    by (simp add: filterE_char)
qed

lemma filterE_throws:
  assumes "x \<in> set xs" and "p x = Inl TypeError"
  shows "filterE p xs = Inl TypeError"
  using assms by (auto simp: filterE_char)

lemma computeEnabled_throws:
  assumes "tr \<in> set ns" and "ntype tr = TransitionT" and "inherited (nid tr)"
  shows "computeEnabled ns es = Inl TypeError"
proof -
  let ?nb = "fromEntries (map (\<lambda>n. (nid n, ntype n)) ns)"
  let ?keep = "\<lambda>e. getProp ?nb (target e) = Own TransitionT"
  show ?thesis
  proof (cases "\<exists>a \<in> set es. ?keep a \<and> inherited (target a)")
    case True
    then have "indexArcs ?keep target es = Inl TypeError"
      by (simp add: indexArcs_char)
    then show ?thesis
      by (simp add: computeEnabled_def)
  next
    case False
    then have i: "indexArcs ?keep target es = Inr (bucketsAfter ?keep target Map.empty es)"
      by (simp add: indexArcs_char)
    have "bucketEvery ok (bucketsAfter ?keep target Map.empty es) (nid tr) = Inl TypeError" for ok
      using bucketEvery_index [OF False] assms(3) by simp
    moreover have "tr \<in> set (filter (\<lambda>n. ntype n = TransitionT) ns)"
      using assms(1,2) by simp
    ultimately have "filterE (\<lambda>tr. bucketEvery ok (bucketsAfter ?keep target Map.empty es) (nid tr))
        (filter (\<lambda>n. ntype n = TransitionT) ns) = Inl TypeError" for ok
      by (rule filterE_throws [rotated])
    then show ?thesis
      using i by (simp add: computeEnabled_def)
  qed
qed

lemma computeEnabled_returns:
  assumes "\<forall>tr \<in> set ns. ntype tr = TransitionT \<longrightarrow> \<not> inherited (nid tr)"
  shows "computeEnabled ns es =
     Inr (map nid
       (filter (\<lambda>tr. \<forall>a \<in> set es.
                  fromEntries (map (\<lambda>n. (nid n, ntype n)) ns) (target a) = Some TransitionT \<and>
                  target a = nid tr \<longrightarrow>
                  hasTokens (collectTokensFromNodes ns) (source a) (weightOf a))
          (filter (\<lambda>n. ntype n = TransitionT) ns)))"
proof -
  let ?nb = "fromEntries (map (\<lambda>n. (nid n, ntype n)) ns)"
  let ?keep = "\<lambda>e. getProp ?nb (target e) = Own TransitionT"
  let ?pt = "fromEntries (map (\<lambda>p. (nid p, tokensOf p)) (filter (\<lambda>n. ntype n = PlaceT) ns))"
  let ?ok = "\<lambda>a. hasTokens ?pt (source a) (weightOf a)"
  have pt: "?pt = collectTokensFromNodes ns"
    by (simp add: collectTokensFromNodes_def isP_eq)
  have no: "\<not> (\<exists>a \<in> set es. ?keep a \<and> inherited (target a))"
  proof
    assume "\<exists>a \<in> set es. ?keep a \<and> inherited (target a)"
    then obtain a :: edge where a: "?nb (target a) = Some TransitionT" "inherited (target a)"
      by (auto simp: getProp_Own_iff)
    from nodeById_transition [OF a(1)] obtain tr
      where "tr \<in> set ns" "nid tr = target a" "ntype tr = TransitionT"
      by blast
    with assms a(2) show False
      by auto
  qed
  then have i: "indexArcs ?keep target es = Inr (bucketsAfter ?keep target Map.empty es)"
    by (simp add: indexArcs_char)
  have "\<forall>tr \<in> set (filter (\<lambda>n. ntype n = TransitionT) ns).
          bucketEvery ?ok (bucketsAfter ?keep target Map.empty es) (nid tr) =
            Inr (\<forall>a \<in> set es. ?keep a \<and> target a = nid tr \<longrightarrow> ?ok a)"
    using bucketEvery_index [OF no] assms by simp
  then have "filterE (\<lambda>tr. bucketEvery ?ok (bucketsAfter ?keep target Map.empty es) (nid tr))
        (filter (\<lambda>n. ntype n = TransitionT) ns) =
      Inr (filter (\<lambda>tr. \<forall>a \<in> set es. ?keep a \<and> target a = nid tr \<longrightarrow> ?ok a)
             (filter (\<lambda>n. ntype n = TransitionT) ns))"
    by (rule filterE_returns)
  then show ?thesis
    using i by (simp add: computeEnabled_def getProp_Own_iff pt)
qed

lemma localEnabled_throws:
  assumes "t \<in> set (transitions n)" and "inherited (transition_id t)"
  shows "localEnabled n marking = Inl TypeError"
proof -
  let ?keep = "\<lambda>a. dst a \<in> set (map transition_id (transitions n)) \<and>
                    src a \<in> set (map place_id (places n))"
  show ?thesis
  proof (cases "\<exists>a \<in> set (arcs n). ?keep a \<and> inherited (dst a)")
    case True
    then have "localInArcs n = Inl TypeError"
      by (simp add: localInArcs_def indexArcs_char)
    then show ?thesis
      by (simp add: localEnabled_def)
  next
    case False
    then have i: "localInArcs n = Inr (bucketsAfter ?keep dst Map.empty (arcs n))"
      by (simp add: localInArcs_def indexArcs_char)
    have "bucketEvery ok (bucketsAfter ?keep dst Map.empty (arcs n)) (transition_id t) =
            Inl TypeError" for ok
      using bucketEvery_index [OF False] assms(2) by simp
    then have "filterE (\<lambda>t. bucketEvery ok (bucketsAfter ?keep dst Map.empty (arcs n))
                  (transition_id t)) (transitions n) = Inl TypeError" for ok
      using assms(1) by (rule filterE_throws [rotated])
    then show ?thesis
      using i by (simp add: localEnabled_def)
  qed
qed

lemma localEnabled_returns:
  assumes "\<forall>t \<in> set (transitions n). \<not> inherited (transition_id t)"
  shows "localEnabled n marking =
     Inr (map transition_id
       (filter (\<lambda>t. \<forall>a \<in> set (arcs n).
                  src a \<in> set (map place_id (places n)) \<and> dst a = transition_id t \<longrightarrow>
                  hasTokens (case marking of None \<Rightarrow> Map.empty | Some mk \<Rightarrow> mk) (src a) (arcWeight a))
          (transitions n)))"
proof -
  let ?keep = "\<lambda>a. dst a \<in> set (map transition_id (transitions n)) \<and>
                    src a \<in> set (map place_id (places n))"
  let ?m = "case marking of None \<Rightarrow> Map.empty | Some mk \<Rightarrow> mk"
  let ?ok = "\<lambda>a. hasTokens ?m (src a) (arcWeight a)"
  have no: "\<not> (\<exists>a \<in> set (arcs n). ?keep a \<and> inherited (dst a))"
    using assms by auto
  then have i: "localInArcs n = Inr (bucketsAfter ?keep dst Map.empty (arcs n))"
    by (simp add: localInArcs_def indexArcs_char)
  have "\<forall>t \<in> set (transitions n).
          bucketEvery ?ok (bucketsAfter ?keep dst Map.empty (arcs n)) (transition_id t) =
            Inr (\<forall>a \<in> set (arcs n).
                   src a \<in> set (map place_id (places n)) \<and> dst a = transition_id t \<longrightarrow> ?ok a)"
    using bucketEvery_index [OF no] assms by auto
  then have "filterE (\<lambda>t. bucketEvery ?ok (bucketsAfter ?keep dst Map.empty (arcs n))
                (transition_id t)) (transitions n) =
      Inr (filter (\<lambda>t. \<forall>a \<in> set (arcs n).
                     src a \<in> set (map place_id (places n)) \<and> dst a = transition_id t \<longrightarrow> ?ok a)
             (transitions n))"
    by (rule filterE_returns)
  then show ?thesis
    using i by (simp add: localEnabled_def)
qed

lemma hasTokens_tokensAt:
  assumes "inherited p \<longrightarrow> m p \<noteq> None"
  shows "hasTokens m p w \<longleftrightarrow> tokensAt m p \<ge> w"
  using assms by (auto simp: hasTokens_def getProp_def tokensAt_def split: option.split)

lemma nodeById_distinct:
  assumes "distinct (map nid ns)" and "n \<in> set ns"
  shows "fromEntries (map (\<lambda>n. (nid n, ntype n)) ns) (nid n) = Some (ntype n)"
proof -
  have "distinct (map fst (rev (map (\<lambda>n. (nid n, ntype n)) ns)))"
    using assms(1) by (simp add: rev_map [symmetric] comp_def)
  moreover have "(nid n, ntype n) \<in> set (rev (map (\<lambda>n. (nid n, ntype n)) ns))"
    using assms(2) by auto
  ultimately show ?thesis
    unfolding fromEntries_def by (rule map_of_is_SomeI)
qed

text \<open>What the code computes on the nets it does not fail on.\<close>

lemma computeEnabled_iff:
  assumes "distinct (map nid ns)"
    and "\<forall>tr \<in> set ns. ntype tr = TransitionT \<longrightarrow> \<not> inherited (nid tr)"
  shows "\<exists>xs. computeEnabled ns es = Inr xs \<and>
           (\<forall>t. t \<in> set xs \<longleftrightarrow>
              (\<exists>tr \<in> set ns. ntype tr = TransitionT \<and> nid tr = t) \<and>
              (\<forall>a \<in> set es. target a = t \<longrightarrow>
                 hasTokens (collectTokensFromNodes ns) (source a) (weightOf a)))"
proof -
  let ?nb = "fromEntries (map (\<lambda>n. (nid n, ntype n)) ns)"
  let ?xs = "map nid
       (filter (\<lambda>tr. \<forall>a \<in> set es. ?nb (target a) = Some TransitionT \<and> target a = nid tr \<longrightarrow>
                  hasTokens (collectTokensFromNodes ns) (source a) (weightOf a))
          (filter (\<lambda>n. ntype n = TransitionT) ns))"
  have r: "computeEnabled ns es = Inr ?xs"
    using assms(2) by (rule computeEnabled_returns)
  have nb: "?nb (nid tr) = Some TransitionT" if "tr \<in> set ns" "ntype tr = TransitionT" for tr
    using nodeById_distinct [OF assms(1) that(1)] that(2) by simp
  have "t \<in> set ?xs \<longleftrightarrow>
              (\<exists>tr \<in> set ns. ntype tr = TransitionT \<and> nid tr = t) \<and>
              (\<forall>a \<in> set es. target a = t \<longrightarrow>
                 hasTokens (collectTokensFromNodes ns) (source a) (weightOf a))" for t
    using nb by auto
  with r show ?thesis
    by blast
qed

text \<open>
  \<^bold>\<open>Claim C2.\<close> \<open>computeEnabled\<close> is to return, for every net, exactly the transitions all of
  whose input arcs find enough tokens, a transition without input arcs always among them. On
  the nets none of whose transition identifiers names an inherited member it does (lemma
  \<open>computeEnabled_iff\<close>). A transition whose identifier is such a name makes it throw
  (lemma \<open>computeEnabled_throws\<close>): \<open>inArcs[tr.id] || []\<close> is then the inherited member,
  which has no \<open>every\<close>. So there is no result for the net with the single transition
  \<open>constructor\<close> and no arc, nor for the example net with that transition added.
\<close>

theorem computeEnabled_inherited_id:
  "ntype exCtor = TransitionT \<and> nid exCtor = ''constructor'' \<and>
   computeEnabled [exCtor] [] = Inl TypeError \<and>
   computeEnabled (exNodes @ [exCtor]) exEdges = Inl TypeError"
  by (simp add: exCtor_def ex_editor_defs enabled_defs)

text \<open>
  \<^bold>\<open>Claim C9.\<close> For every list of nodes and edges, \<open>computeEnabled\<close> returns the same list of
  transition identifiers as \<open>enabledAtTokens\<close> applied to the marking collected from the
  place nodes, and throws exactly when it does; both read a missing entry as zero.
\<close>

theorem computeEnabled_enabledAtTokens:
  "computeEnabled ns es = enabledAtTokens ns es (collectTokensFromNodes ns)"
  by (simp add: computeEnabled_def enabledAtTokens_def collectTokensFromNodes_def isP_eq)

theorem computeEnabled_enabledAtTokens_witness:
  "computeEnabled exNodes exEdges = Inr [''T1''] \<and>
   enabledAtTokens exNodes exEdges (collectTokensFromNodes exNodes) = Inr [''T1'']"
  using computeEnabled_enabledAtTokens [of exNodes exEdges]
  by (simp add: ex_editor_defs enabled_defs)

section \<open>Local state analysis\<close>

lemma localAnalyze_throws_iff:
  "localAnalyze n marking pn = Inl TypeError \<longleftrightarrow>
     (\<exists>t \<in> set (transitions n). inherited (transition_id t))"
proof (cases "\<exists>t \<in> set (transitions n). inherited (transition_id t)")
  case True
  then obtain t where "t \<in> set (transitions n)" "inherited (transition_id t)"
    by blast
  then have "localEnabled n marking = Inl TypeError"
    by (rule localEnabled_throws)
  with True show ?thesis
    by (simp add: localAnalyze_def)
next
  case False
  then have "\<forall>t \<in> set (transitions n). \<not> inherited (transition_id t)"
    by blast
  from localEnabled_returns [OF this, of marking] False show ?thesis
    by (simp add: localAnalyze_def)
qed




text \<open>On the nets it does not fail on, the local analysis leaves a dangling arc out of every
  bucket and reports a transition with only dangling incoming arcs as enabled.\<close>

lemma localAnalyze_dangling_ok:
  assumes "\<forall>t \<in> set (transitions n). \<not> inherited (transition_id t)"
    and "a \<in> set (arcs n)"
    and "src a \<notin> set (map place_id (places n)) \<or> dst a \<notin> set (map transition_id (transitions n))"
  shows "\<exists>inArcs pn'. localInArcs n = Inr inArcs \<and> localAnalyze n marking pn = Inr pn' \<and>
           (\<forall>i bucket. inArcs i = Some bucket \<longrightarrow> a \<notin> set bucket) \<and>
           (\<forall>t \<in> set (transitions n).
              (\<forall>b \<in> set (arcs n). dst b = transition_id t \<longrightarrow>
                 src b \<notin> set (map place_id (places n))) \<longrightarrow>
              inArcs (transition_id t) = None \<and> transition_id t \<in> set (p_enabled pn'))"
proof -
  let ?keep = "\<lambda>a. dst a \<in> set (map transition_id (transitions n)) \<and>
                    src a \<in> set (map place_id (places n))"
  let ?m = "case marking of None \<Rightarrow> Map.empty | Some mk \<Rightarrow> mk"
  let ?en = "\<lambda>t. \<forall>a \<in> set (arcs n).
                   src a \<in> set (map place_id (places n)) \<and> dst a = transition_id t \<longrightarrow>
                   hasTokens ?m (src a) (arcWeight a)"
  let ?xs = "map transition_id (filter ?en (transitions n))"
  let ?pn = "pn\<lparr>p_enabled := ?xs, p_deadlocked := (length ?xs = 0), p_serverMarking := ?m\<rparr>"
  have no: "\<not> (\<exists>a \<in> set (arcs n). ?keep a \<and> inherited (dst a))"
    using assms(1) by auto
  then have i: "localInArcs n = Inr (bucketsAfter ?keep dst Map.empty (arcs n))"
    by (simp add: localInArcs_def indexArcs_char)
  have e: "localEnabled n marking = Inr ?xs"
    using assms(1) by (rule localEnabled_returns)
  then have p: "localAnalyze n marking pn = Inr ?pn"
    by (simp add: localAnalyze_def)
  have 1: "\<forall>i bucket. bucketsAfter ?keep dst Map.empty (arcs n) i = Some bucket \<longrightarrow> a \<notin> set bucket"
    using assms(3) by (auto simp: bucketsAfter_def split: if_splits)
  have 2: "\<forall>t \<in> set (transitions n).
              (\<forall>b \<in> set (arcs n). dst b = transition_id t \<longrightarrow>
                 src b \<notin> set (map place_id (places n))) \<longrightarrow>
              bucketsAfter ?keep dst Map.empty (arcs n) (transition_id t) = None \<and>
              transition_id t \<in> set (p_enabled ?pn)"
    by (auto simp: bucketsAfter_def filter_empty_conv)
  from i p 1 2 show ?thesis
    by blast
qed

text \<open>The example net with the transition \<open>T2\<close>, whose only arc leaves \<open>X9\<close>, no place:
  the arc is in no bucket and \<open>T2\<close> is enabled, while \<open>T1\<close> lacks its token.\<close>

lemma localAnalyze_dangling_example:
  "exDangling \<in> set (arcs exNet) \<and> src exDangling \<notin> set (map place_id (places exNet)) \<and>
   localInArcs exNet =
     Inr [''T1'' \<mapsto> [\<lparr>arc_id = ''A1'', src = ''P1'', dst = ''T1'', arc_weight = Some 1\<rparr>]] \<and>
   localAnalyze exNet (Some exMarking1) exPanel =
     Inr \<lparr>p_enabled = [''T2''], p_deadlocked = False, p_serverMarking = exMarking1\<rparr>"
  by (simp add: local_defs exNet_def exDangling_def exMarking1_def exPanel_def initialPanel_def)


section \<open>Execution history\<close>

lemma history_applyStep: "history (applyStep stp st) = history st"
  by (simp add: applyStep_def Let_def split: sum.split)

lemma hIndex_applyStep: "hIndex (applyStep stp st) = hIndex st"
  by (simp add: applyStep_def Let_def split: sum.split)

lemma history_goTo: "history (goTo idx st) = history st"
  by (simp add: goTo_def history_applyStep)

lemma hIndex_goTo_accepted:
  "0 \<le> idx \<Longrightarrow> idx < int (length (history st)) \<Longrightarrow> hIndex (goTo idx st) = idx"
  by (simp add: goTo_def hIndex_applyStep)

text \<open>
  \<^bold>\<open>Claim C6.\<close> \<open>goTo idx\<close> is accepted exactly when \<open>0 \<le> idx < length history\<close>. When
  accepted, the cursor becomes \<open>idx\<close> and the list of history entries (hence every fired
  transition, marking and timestamp in it) is the same as before. When rejected, the whole
  state is unchanged.
\<close>

theorem goTo_frame:
  "(0 \<le> idx \<and> idx < int (length (history st)) \<longrightarrow>
      hIndex (goTo idx st) = idx \<and> history (goTo idx st) = history st) \<and>
   (\<not> (0 \<le> idx \<and> idx < int (length (history st))) \<longrightarrow> goTo idx st = st)"
proof (cases "0 \<le> idx \<and> idx < int (length (history st))")
  case True
  then show ?thesis
    by (simp add: history_goTo hIndex_goTo_accepted)
next
  case False
  then have "idx < 0 \<or> idx \<ge> int (length (history st))"
    by auto
  then have "goTo idx st = st"
    by (simp add: goTo_def)
  with False show ?thesis
    by auto
qed

theorem goTo_frame_witness:
  "(0::int) \<le> 0 \<and> (0::int) < int (length (history exRun)) \<and>
   hIndex (goTo 0 exRun) = 0 \<and> history (goTo 0 exRun) = history exRun \<and>
   \<not> (0 \<le> (2::int) \<and> (2::int) < int (length (history exRun))) \<and> goTo 2 exRun = exRun \<and>
   \<not> (0 \<le> (- 1::int) \<and> (- 1::int) < int (length (history exRun))) \<and> goTo (- 1) exRun = exRun"
  using goTo_frame [of 0 exRun] goTo_frame [of 2 exRun] goTo_frame [of "- 1" exRun]
  by (simp add: exRun_def)

text \<open>
  \<^bold>\<open>Claim C4.\<close> In a non-empty history, moving the cursor to an index \<open>i\<close> of the history
  with \<open>goTo\<close> and then appending a step (after the render that follows \<open>goTo\<close>) gives a
  history of length \<open>i + 2\<close>: the entries \<open>0..i\<close> are the old ones, entry \<open>i + 1\<close> is the new
  step, nothing of what came after \<open>i\<close> is left, and the cursor is \<open>i + 1\<close>.
\<close>

theorem goTo_then_append:
  assumes "history st \<noteq> []" and "i < length (history st)"
  shows "history (appendHistory newStep (commit (goTo (int i) st))) =
           take (i + 1) (history st) @ [newStep] \<and>
         length (history (appendHistory newStep (commit (goTo (int i) st)))) = i + 2 \<and>
         (\<forall>j \<le> i. history (appendHistory newStep (commit (goTo (int i) st))) ! j = history st ! j) \<and>
         history (appendHistory newStep (commit (goTo (int i) st))) ! (i + 1) = newStep \<and>
         hIndex (appendHistory newStep (commit (goTo (int i) st))) = int i + 1"
proof -
  let ?st' = "appendHistory newStep (commit (goTo (int i) st))"
  have idx: "hIndex (goTo (int i) st) = int i"
    using assms(2) by (simp add: hIndex_goTo_accepted)
  have h: "history ?st' = take (i + 1) (history st) @ [newStep]"
    using idx by (simp add: appendHistory_def commit_def Let_def history_goTo nat_add_distrib)
  have len: "length (take (i + 1) (history st)) = i + 1"
    using assms(2) by simp
  have c: "hIndex ?st' = int i + 1"
    using idx by (simp add: appendHistory_def commit_def Let_def)
  have n: "\<forall>j \<le> i. history ?st' ! j = history st ! j"
    using assms(2) by (simp add: h nth_append)
  have l: "history ?st' ! (i + 1) = newStep"
    unfolding h using len by (metis nth_append_length)
  show ?thesis
    using h len c n l by simp
qed

theorem goTo_then_append_witness:
  "history exRun \<noteq> [] \<and> 0 < length (history exRun) \<and>
   history (appendHistory exStep2 (commit (goTo (int 0) exRun))) = [exStep0, exStep2] \<and>
   hIndex (appendHistory exStep2 (commit (goTo (int 0) exRun))) = 1"
  using goTo_then_append [of exRun 0 exStep2]
  by (simp add: exRun_def)

section \<open>Firing\<close>

lemma fire_busy: "isFiring st \<Longrightarrow> fire tid now0 now1 resp st = st"
  by (simp add: fire_def)

text \<open>
  \<^bold>\<open>Claim C3\<close>, as amended. A \<open>fire\<close> call that fails (the request throws or the server
  rejects the transition) leaves the nodes, hence the current marking, exactly as they were.
  It adds no entry to a history that already exists: its entries and its cursor stay as they
  were. On an empty history the call, unless it is ignored because another firing is in
  progress, has recorded the initial entry (no fired transition, the current marking) before
  the request was sent, with the cursor on it, and the failure leaves that entry in place.
\<close>

theorem fire_failed:
  assumes "resp = Thrown msg \<or> resp = Rejected d"
  shows "nodes (fire tid now0 now1 resp st) = nodes st \<and>
         (history st \<noteq> [] \<longrightarrow>
            history (fire tid now0 now1 resp st) = history st \<and>
            hIndex (fire tid now0 now1 resp st) = hIndex st) \<and>
         (history st = [] \<and> isFiring st \<longrightarrow>
            history (fire tid now0 now1 resp st) = [] \<and>
            hIndex (fire tid now0 now1 resp st) = hIndex st) \<and>
         (history st = [] \<and> \<not> isFiring st \<longrightarrow>
            history (fire tid now0 now1 resp st) =
              [\<lparr>fired = None, step_tokens = collectTokensFromNodes (nodes st), ts = now0\<rparr>] \<and>
            hIndex (fire tid now0 now1 resp st) = 0)"
proof (cases "isFiring st")
  case True
  then show ?thesis
    by (simp add: fire_busy)
next
  case False
  from assms show ?thesis
  proof
    assume "resp = Thrown msg"
    with False show ?thesis
      by (simp add: fire_def ensureHistoryInit_def commit_def Let_def)
  next
    assume "resp = Rejected d"
    with False show ?thesis
      by (simp add: fire_def ensureHistoryInit_def commit_def Let_def)
  qed
qed

theorem fire_failed_witness:
  "history exRun \<noteq> [] \<and>
   nodes (fire ''T1'' 300 400 (Rejected (Some ''not enabled'')) exRun) = nodes exRun \<and>
   history (fire ''T1'' 300 400 (Rejected (Some ''not enabled'')) exRun) = [exStep0, exStep1] \<and>
   hIndex (fire ''T1'' 300 400 (Rejected (Some ''not enabled'')) exRun) = 1 \<and>
   history exApp = [] \<and> \<not> isFiring exApp \<and>
   nodes (fire ''T1'' 100 200 (Thrown ''Failed to fetch'') exApp) = nodes exApp \<and>
   length (history (fire ''T1'' 100 200 (Thrown ''Failed to fetch'') exApp)) = 1 \<and>
   history (fire ''T1'' 100 200 (Thrown ''Failed to fetch'') (exApp\<lparr>isFiring := True\<rparr>)) = []"
  using fire_failed [of "Rejected (Some ''not enabled'')" "''x''" "Some ''not enabled''" "''T1''" 300 400 exRun]
    fire_failed [of "Thrown ''Failed to fetch''" "''Failed to fetch''" None "''T1''" 100 200 exApp]
    fire_failed [of "Thrown ''Failed to fetch''" "''Failed to fetch''" None "''T1''" 100 200 "exApp\<lparr>isFiring := True\<rparr>"]
  by (simp add: exRun_def exApp_def)

text \<open>
  As first stated, the claim also denies that a failed call creates a history. With the
  example net just loaded and the request failing, the history goes from empty to one entry.
\<close>

theorem fire_failed_counterexample:
  "history exApp = [] \<and> hIndex exApp = - 1 \<and>
   history (fire ''T1'' 100 200 (Thrown ''Failed to fetch'') exApp) =
     [\<lparr>fired = None, step_tokens = collectTokensFromNodes (nodes exApp), ts = 100\<rparr>] \<and>
   hIndex (fire ''T1'' 100 200 (Thrown ''Failed to fetch'') exApp) = 0"
  by (simp add: fire_def exApp_def ensureHistoryInit_def commit_def)

section \<open>Editing\<close>

lemma clearHistory_empties: "history (clearHistory st) = [] \<and> hIndex (clearHistory st) = - 1"
  by (simp add: clearHistory_def)

text \<open>The handlers that add or remove a node or an arc all end with \<open>clearHistory\<close>.\<close>

lemma add_delete_clear_history:
  "history (addPlace st) = [] \<and> hIndex (addPlace st) = - 1"
  "history (addTransition st) = [] \<and> hIndex (addTransition st) = - 1"
  "history (deleteById i st) = [] \<and> hIndex (deleteById i st) = - 1"
  by (simp_all add: addPlace_def addTransition_def deleteById_def Let_def clearHistory_def)

lemma onConnect_clears_history:
  assumes "find (\<lambda>n. nid n = s) (nodes st) = Some a"
    and "find (\<lambda>n. nid n = t) (nodes st) = Some b"
    and "(isP a \<and> isT b) \<or> (isT a \<and> isP b)"
  shows "history (onConnect addEdge s t st) = [] \<and> hIndex (onConnect addEdge s t st) = - 1"
  using assms by (auto simp: onConnect_def Let_def clearHistory_def)

lemma onKeyDown_clears_history:
  assumes "\<not> inForm" and "key = ''Delete'' \<or> key = ''Backspace''" and "selectedIds st \<noteq> []"
  shows "history (onKeyDown inForm key st) = [] \<and> hIndex (onKeyDown inForm key st) = - 1"
  using assms by (auto simp: onKeyDown_def Let_def clearHistory_def)

text \<open>\<open>updateSelected\<close> touches neither the history nor its cursor, whatever the patch.\<close>

lemma updateSelected_history:
  "history (updateSelected pt st) = history st \<and> hIndex (updateSelected pt st) = hIndex st"
  by (simp add: updateSelected_def split: option.split)

text \<open>
  \<^bold>\<open>Claim C5.\<close> An edit of the net is to clear the history. \<open>updateSelected\<close>, the handler
  behind the label, token and weight fields of the inspector, is the one handler changing
  the net that does not call \<open>clearHistory\<close>. With a recorded run of two entries and the arc
  \<open>A1\<close> selected, changing the weight of \<open>A1\<close> from 1 to 2 changes the net and leaves both
  entries and the cursor in place; so does renaming the selected place \<open>P1\<close>.
\<close>

theorem updateSelected_keeps_history:
  "selectedEdge exSel = Some exA1 \<and>
   weightOf (edges exSel ! 0) = 1 \<and>
   weightOf (edges (updateSelected (EdgeData \<lparr>d_weight = Some 2\<rparr>) exSel) ! 0) = 2 \<and>
   history (updateSelected (EdgeData \<lparr>d_weight = Some 2\<rparr>) exSel) = [exStep0, exStep1] \<and>
   hIndex (updateSelected (EdgeData \<lparr>d_weight = Some 2\<rparr>) exSel) = 1 \<and>
   selectedNode exSelP = Some (withTokens 0 exP1) \<and>
   history (updateSelected (NodeData \<lparr>d_label = Some ''start'', d_tokens = Some 0\<rparr>) exSelP) =
     [exStep0, exStep1] \<and>
   hIndex (updateSelected (NodeData \<lparr>d_label = Some ''start'', d_tokens = Some 0\<rparr>) exSelP) = 1"
  by (simp add: updateSelected_def selectedEdge_def selectedNode_def ex_editor_defs
      weightOf_def applyTokens_def withTokens_def isP_def tokensAt_def)

end
